theory Spec2Isabelle
  imports Main
begin

section \<open>Dashboard view-state: data model\<close>

text \<open>
  The dashboard page (\<^verbatim>\<open>src/pages/dashboard/index.js\<close>) keeps an array of post objects in
  component state. Posts and comments are JavaScript objects, compared by \<^verbatim>\<open>===\<close> on their
  references, so they live in an explicit store and arrays hold references. Ids are
  primitive values compared with \<^verbatim>\<open>===\<close> / \<^verbatim>\<open>!==\<close>: a number never equals a string.
\<close>

type_synonym ref = nat

datatype jsid = NumId int | StrId string

datatype error = TypeError | Rejection string

record comment =
  comment_id :: jsid
  comment_postId :: jsid
  comment_userId :: jsid
  comment_content :: string

record post =
  post_id :: jsid
  post_userId :: jsid
  post_content :: string
  post_comments :: "ref list"

text \<open>
  The store: the object behind every reference, and the next address an object literal
  (\<^verbatim>\<open>{ ... }\<close>) allocates at. Addresses below \<open>next_ref\<close> are the allocated post objects.
\<close>

record heap =
  post_at :: "ref \<Rightarrow> post"
  comment_at :: "ref \<Rightarrow> comment"
  next_ref :: ref

text \<open>Property reads \<^verbatim>\<open>p.id\<close>, \<^verbatim>\<open>post.comments\<close> and \<^verbatim>\<open>c.id\<close> through a reference.\<close>

definition pid_of :: "heap \<Rightarrow> ref \<Rightarrow> jsid" where
  "pid_of h p = post_id (post_at h p)"

definition comments_of :: "heap \<Rightarrow> ref \<Rightarrow> ref list" where
  "comments_of h p = post_comments (post_at h p)"

definition cid_of :: "heap \<Rightarrow> ref \<Rightarrow> jsid" where
  "cid_of h c = comment_id (comment_at h c)"

text \<open>An object literal creates a new post object: a reference no existing object has.\<close>

definition alloc_post :: "heap \<Rightarrow> post \<Rightarrow> heap \<times> ref" where
  "alloc_post h p =
     (h\<lparr>post_at := (post_at h)(next_ref h := p), next_ref := Suc (next_ref h)\<rparr>, next_ref h)"

text \<open>
  The component state of \<^verbatim>\<open>Dashboard\<close> that the post handlers touch: \<^verbatim>\<open>posts\<close>,
  \<^verbatim>\<open>loadingPosts\<close>, and what \<^verbatim>\<open>console.error\<close> has been given.
\<close>

record dashboard =
  store :: heap
  posts :: "ref list"
  loadingPosts :: bool
  console_error :: "error list"

text \<open>\<^verbatim>\<open>useState([])\<close> and \<^verbatim>\<open>useState(true)\<close>.\<close>

definition initial_dashboard :: "heap \<Rightarrow> dashboard" where
  "initial_dashboard h = \<lparr>store = h, posts = [], loadingPosts = True, console_error = []\<rparr>"

text \<open>Every reference held in \<^verbatim>\<open>posts\<close> is an allocated object.\<close>

definition allocated :: "heap \<Rightarrow> ref list \<Rightarrow> bool" where
  "allocated h ps = list_all (\<lambda>r. r < next_ref h) ps"

section \<open>Local transforms\<close>

text \<open>
  \<^verbatim>\<open>prev.map(fn)\<close>: \<^verbatim>\<open>fn\<close> is called on each element from left to right and may allocate.
\<close>

fun array_map :: "(heap \<Rightarrow> ref \<Rightarrow> heap \<times> ref) \<Rightarrow> heap \<Rightarrow> ref list \<Rightarrow> heap \<times> ref list" where
  "array_map fn h [] = (h, [])"
| "array_map fn h (p # ps) =
     (case fn h p of (h1, p') \<Rightarrow>
        (case array_map fn h1 ps of (h2, ps') \<Rightarrow> (h2, p' # ps')))"

text \<open>\<^verbatim>\<open>const updatePosts = (fn) => setPosts((prev) => prev.map(fn));\<close>\<close>

definition updatePosts :: "(heap \<Rightarrow> ref \<Rightarrow> heap \<times> ref) \<Rightarrow> dashboard \<Rightarrow> dashboard" where
  "updatePosts fn s =
     (case array_map fn (store s) (posts s) of (h', ps') \<Rightarrow> s\<lparr>store := h', posts := ps'\<rparr>)"

text \<open>
  The four arrow functions given to \<^verbatim>\<open>updatePosts\<close>. \<open>updatedPost\<close> stands for the fields
  of the object \<^verbatim>\<open>patchPost\<close> resolved with, which the spread \<^verbatim>\<open>{ ...updatedPost }\<close> copies.
\<close>

definition updatePost_fn :: "jsid \<Rightarrow> post \<Rightarrow> ref list \<Rightarrow> heap \<Rightarrow> ref \<Rightarrow> heap \<times> ref" where
  "updatePost_fn postId updatedPost refreshedComments h p =
     (if pid_of h p = postId
      then alloc_post h (updatedPost\<lparr>post_comments := refreshedComments\<rparr>)
      else (h, p))"

definition commentPost_fn :: "jsid \<Rightarrow> ref \<Rightarrow> heap \<Rightarrow> ref \<Rightarrow> heap \<times> ref" where
  "commentPost_fn postId savedComment h p =
     (if pid_of h p = postId
      then alloc_post h ((post_at h p)\<lparr>post_comments := comments_of h p @ [savedComment]\<rparr>)
      else (h, p))"

definition deleteComment_fn :: "jsid \<Rightarrow> jsid \<Rightarrow> heap \<Rightarrow> ref \<Rightarrow> heap \<times> ref" where
  "deleteComment_fn postId commentId h p =
     (if pid_of h p = postId
      then alloc_post h ((post_at h p)
             \<lparr>post_comments := filter (\<lambda>c. cid_of h c \<noteq> commentId) (comments_of h p)\<rparr>)
      else (h, p))"

definition updateComment_fn :: "jsid \<Rightarrow> jsid \<Rightarrow> ref \<Rightarrow> heap \<Rightarrow> ref \<Rightarrow> heap \<times> ref" where
  "updateComment_fn postId commentId updatedComment h p =
     (if pid_of h p = postId
      then alloc_post h ((post_at h p)
             \<lparr>post_comments :=
                map (\<lambda>c. if cid_of h c = commentId then updatedComment else c) (comments_of h p)\<rparr>)
      else (h, p))"

text \<open>\<^verbatim>\<open>[savedPost, ...prev]\<close> and \<^verbatim>\<open>prev.filter((p) => p.id !== postId)\<close>.\<close>

definition prependPost :: "ref \<Rightarrow> dashboard \<Rightarrow> dashboard" where
  "prependPost savedPost s = s\<lparr>posts := savedPost # posts s\<rparr>"

definition removePost :: "jsid \<Rightarrow> dashboard \<Rightarrow> dashboard" where
  "removePost postId s = s\<lparr>posts := filter (\<lambda>p. pid_of (store s) p \<noteq> postId) (posts s)\<rparr>"

section \<open>Handlers\<close>

text \<open>
  An \<^verbatim>\<open>await\<close>ed API call either rejects (\<open>Inl\<close>) or resolves with a value (\<open>Inr\<close>); the
  handler's own promise does the same. Arguments that only travel to the server (the
  text, the new content, \<^verbatim>\<open>user.id\<close>) are represented by the call's outcome.
\<close>

definition handlePostSubmit :: "error + ref \<Rightarrow> dashboard \<Rightarrow> dashboard \<times> (error + unit)" where
  "handlePostSubmit posted s =
     (case posted of
        Inr savedPost \<Rightarrow> (prependPost savedPost s, Inr ())
      | Inl err \<Rightarrow> (s\<lparr>console_error := console_error s @ [err]\<rparr>, Inr ()))"

definition handleDeletePost :: "error + unit \<Rightarrow> jsid \<Rightarrow> dashboard \<Rightarrow> dashboard \<times> (error + unit)" where
  "handleDeletePost deleted postId s =
     (case deleted of
        Inl err \<Rightarrow> (s, Inl err)
      | Inr _ \<Rightarrow> (removePost postId s, Inr ()))"

definition handleUpdatePost ::
    "error + post \<Rightarrow> error + ref list \<Rightarrow> jsid \<Rightarrow> dashboard \<Rightarrow> dashboard \<times> (error + unit)" where
  "handleUpdatePost patched fetched postId s =
     (case patched of
        Inl err \<Rightarrow> (s, Inl err)
      | Inr updatedPost \<Rightarrow>
          (case fetched of
             Inl err \<Rightarrow> (s, Inl err)
           | Inr refreshedComments \<Rightarrow>
               (updatePosts (updatePost_fn postId updatedPost refreshedComments) s, Inr ())))"

definition handleCommentPost :: "error + ref \<Rightarrow> jsid \<Rightarrow> dashboard \<Rightarrow> dashboard \<times> (error + unit)" where
  "handleCommentPost posted postId s =
     (case posted of
        Inl err \<Rightarrow> (s, Inl err)
      | Inr savedComment \<Rightarrow> (updatePosts (commentPost_fn postId savedComment) s, Inr ()))"

definition handleDeleteComment ::
    "error + unit \<Rightarrow> jsid \<Rightarrow> jsid \<Rightarrow> dashboard \<Rightarrow> dashboard \<times> (error + unit)" where
  "handleDeleteComment deleted postId commentId s =
     (case deleted of
        Inl err \<Rightarrow> (s, Inl err)
      | Inr _ \<Rightarrow> (updatePosts (deleteComment_fn postId commentId) s, Inr ()))"

definition handleUpdateComment ::
    "error + ref \<Rightarrow> jsid \<Rightarrow> jsid \<Rightarrow> dashboard \<Rightarrow> dashboard \<times> (error + unit)" where
  "handleUpdateComment patched postId commentId s =
     (case patched of
        Inl err \<Rightarrow> (s, Inl err)
      | Inr updatedComment \<Rightarrow>
          (updatePosts (updateComment_fn postId commentId updatedComment) s, Inr ()))"

text \<open>
  The initial load. \<^verbatim>\<open>getPosts\<close> resolves with \<^verbatim>\<open>res.data\<close>, which is an array or not;
  \<^verbatim>\<open>.reverse()\<close> on anything a JSON body can hold other than an array throws a TypeError
  inside the \<^verbatim>\<open>try\<close>.
\<close>

datatype posts_payload = PostsArray "ref list" | NotAnArray

definition fetchPosts :: "error + posts_payload \<Rightarrow> dashboard \<Rightarrow> dashboard" where
  "fetchPosts got s =
     (let s1 = (case got of
                  Inr (PostsArray postsFromApi) \<Rightarrow> s\<lparr>posts := rev postsFromApi\<rparr>
                | Inr NotAnArray \<Rightarrow> s\<lparr>console_error := console_error s @ [TypeError]\<rparr>
                | Inl err \<Rightarrow> s\<lparr>console_error := console_error s @ [err]\<rparr>)
      in s1\<lparr>loadingPosts := False\<rparr>)"

section \<open>Sequences of create-post and delete-post\<close>

text \<open>
  One successful run of the create-post handler (the server returned \<open>savedPost\<close>) or of
  the delete-post handler, and a sequence of such runs in order.
\<close>

datatype post_op = CreatePost ref | DeletePost jsid

definition apply_post_op :: "dashboard \<Rightarrow> post_op \<Rightarrow> dashboard" where
  "apply_post_op s op =
     (case op of
        CreatePost savedPost \<Rightarrow> fst (handlePostSubmit (Inr savedPost) s)
      | DeletePost postId \<Rightarrow> fst (handleDeletePost (Inr ()) postId s))"

definition run_post_ops :: "dashboard \<Rightarrow> post_op list \<Rightarrow> dashboard" where
  "run_post_ops s ops = foldl apply_post_op s ops"

text \<open>
  The posts the server returned to the creates of a sequence; those among them that no
  later delete of the same id follows (newest first); and the initial posts whose id no
  delete of the sequence names.
\<close>

fun created :: "post_op list \<Rightarrow> ref list" where
  "created [] = []"
| "created (CreatePost savedPost # ops) = savedPost # created ops"
| "created (DeletePost postId # ops) = created ops"

fun surviving_creates :: "heap \<Rightarrow> post_op list \<Rightarrow> ref list" where
  "surviving_creates h [] = []"
| "surviving_creates h (CreatePost savedPost # ops) =
     surviving_creates h ops @
       (if DeletePost (pid_of h savedPost) \<in> set ops then [] else [savedPost])"
| "surviving_creates h (DeletePost postId # ops) = surviving_creates h ops"

definition surviving_initial :: "heap \<Rightarrow> post_op list \<Rightarrow> ref list \<Rightarrow> ref list" where
  "surviving_initial h ops ps = filter (\<lambda>p. DeletePost (pid_of h p) \<notin> set ops) ps"

section \<open>API client\<close>

text \<open>
  The client module (\<^verbatim>\<open>request\<close> and the functions built on it). Payloads and parsed
  bodies are JSON-like values; an object lists its own properties in order.
\<close>

datatype jsval =
    JUndefined | JNull | JBool bool | JNum int | JStr string
  | JArr "jsval list" | JObj "(string \<times> jsval) list"

text \<open>
  The \<^verbatim>\<open>opts\<close> object handed to \<^verbatim>\<open>fetch\<close>, with its properties \<^verbatim>\<open>headers\<close>,
  \<^verbatim>\<open>method\<close> (here \<open>http_method\<close>) and \<^verbatim>\<open>body\<close>; \<open>body = None\<close> is an object without a body.
\<close>

record 'b fetch_opts =
  headers :: "(string \<times> string) list"
  http_method :: string
  body :: "'b option"

text \<open>What \<^verbatim>\<open>request\<close> resolves with: the parsed body, or the response object itself.\<close>

datatype 'r reply = Body jsval | Response 'r

text \<open>
  What the module takes from its surroundings: the imported \<^verbatim>\<open>API_URL\<close>, the built-ins
  \<^verbatim>\<open>JSON.stringify\<close>, \<^verbatim>\<open>localStorage\<close> and \<^verbatim>\<open>fetch\<close>, and \<^verbatim>\<open>response.json()\<close>. A rejected
  promise is \<open>Inl\<close>. What \<^verbatim>\<open>JSON.stringify\<close> returns is left open (\<open>'b\<close>): a string for
  JSON data, \<^verbatim>\<open>undefined\<close> for the \<^verbatim>\<open>undefined\<close> payload that \<^verbatim>\<open>deletePost\<close> passes on.
  The server's answer is a function of the url and the \<^verbatim>\<open>opts\<close> it is sent.
\<close>

record ('b, 'r) platform =
  API_URL :: string
  JSON_stringify :: "jsval \<Rightarrow> 'b"
  localStorage :: "string \<rightharpoonup> string"
  fetch :: "string \<Rightarrow> 'b fetch_opts \<Rightarrow> error + 'r"
  response_json :: "'r \<Rightarrow> error + jsval"

text \<open>The calls to \<^verbatim>\<open>fetch\<close> made so far, oldest first: url and \<^verbatim>\<open>opts\<close>.\<close>

type_synonym 'b wire = "(string \<times> 'b fetch_opts) list"

text \<open>
  \<^verbatim>\<open>method.toUpperCase()\<close> on the letters a to z. No other character has an upper case
  among G, E and T, so the comparison with \<^verbatim>\<open>'GET'\<close> comes out as in the source.
\<close>

definition toUpperCase :: "string \<Rightarrow> string" where
  "toUpperCase s =
     map (\<lambda>c. if (of_char c :: nat) \<in> {97..122} then char_of (of_char c - 32 :: nat) else c) s"

text \<open>Template literals \<^verbatim>\<open>`users/${id}`\<close>: an id as text, and an id as a payload value.\<close>

fun digits :: "nat \<Rightarrow> string" where
  "digits n = (if n < 10 then [char_of (48 + n)] else digits (n div 10) @ [char_of (48 + n mod 10)])"

declare digits.simps [simp del]

definition template :: "jsid \<Rightarrow> string" where
  "template x = (case x of
       StrId s \<Rightarrow> s
     | NumId n \<Rightarrow> (if n < 0 then CHR ''-'' # digits (nat (- n)) else digits (nat n)))"

definition id_value :: "jsid \<Rightarrow> jsval" where
  "id_value x = (case x of StrId s \<Rightarrow> JStr s | NumId n \<Rightarrow> JNum n)"

text \<open>
  \<^verbatim>\<open>`Bearer ${localStorage.getItem('token')}`\<close>: a missing key reads as \<^verbatim>\<open>null\<close>, which the
  template prints as \<^verbatim>\<open>null\<close>.
\<close>

definition getItem :: "(string \<rightharpoonup> string) \<Rightarrow> string \<Rightarrow> string" where
  "getItem ls k = (case ls k of None \<Rightarrow> ''null'' | Some v \<Rightarrow> v)"

text \<open>
  \<^verbatim>\<open>request\<close>, in two parts: the \<^verbatim>\<open>opts\<close> object it builds, then the call to \<^verbatim>\<open>fetch\<close> and
  what is returned. The parameters \<^verbatim>\<open>auth = true\<close> and \<^verbatim>\<open>getFullResponse = false\<close> take
  their default when the caller leaves them out (\<open>None\<close>).
\<close>

definition request_opts ::
    "('b, 'r) platform \<Rightarrow> string \<Rightarrow> jsval \<Rightarrow> bool \<Rightarrow> 'b fetch_opts" where
  "request_opts env meth data auth =
     (let opts = \<lparr>headers = [(''Content-Type'', ''application/json'')], http_method = meth, body = None\<rparr>;
          opts = (if toUpperCase meth \<noteq> ''GET''
                  then opts\<lparr>body := Some (JSON_stringify env data)\<rparr> else opts);
          opts = (if auth
                  then opts\<lparr>headers := headers opts @
                         [(''Authorization'', ''Bearer '' @ getItem (localStorage env) ''token'')]\<rparr>
                  else opts)
      in opts)"

definition request ::
    "('b, 'r) platform \<Rightarrow> string \<Rightarrow> string \<Rightarrow> jsval \<Rightarrow> bool option \<Rightarrow> bool option \<Rightarrow> 'b wire
       \<Rightarrow> (error + 'r reply) \<times> 'b wire" where
  "request env meth endpoint data auth getFullResponse sent =
     (let auth = (case auth of None \<Rightarrow> True | Some b \<Rightarrow> b);
          getFullResponse = (case getFullResponse of None \<Rightarrow> False | Some b \<Rightarrow> b);
          opts = request_opts env meth data auth;
          url = API_URL env @ ''/'' @ endpoint;
          sent = sent @ [(url, opts)]
      in case fetch env url opts of
           Inl err \<Rightarrow> (Inl err, sent)
         | Inr response \<Rightarrow>
             if \<not> getFullResponse
             then (case response_json env response of
                     Inl err \<Rightarrow> (Inl err, sent)
                   | Inr parsed \<Rightarrow> (Inr (Body parsed), sent))
             else (Inr (Response response), sent))"

text \<open>The helpers per HTTP method; \<^verbatim>\<open>get\<close> passes \<^verbatim>\<open>null\<close> as data.\<close>

definition post ::
    "('b, 'r) platform \<Rightarrow> string \<Rightarrow> jsval \<Rightarrow> bool option \<Rightarrow> bool option \<Rightarrow> 'b wire
       \<Rightarrow> (error + 'r reply) \<times> 'b wire" where
  "post env endpoint data auth getFullResponse sent =
     request env ''POST'' endpoint data
       (Some (case auth of None \<Rightarrow> True | Some b \<Rightarrow> b))
       (Some (case getFullResponse of None \<Rightarrow> False | Some b \<Rightarrow> b)) sent"

definition patch ::
    "('b, 'r) platform \<Rightarrow> string \<Rightarrow> jsval \<Rightarrow> bool option \<Rightarrow> bool option \<Rightarrow> 'b wire
       \<Rightarrow> (error + 'r reply) \<times> 'b wire" where
  "patch env endpoint data auth getFullResponse sent =
     request env ''PATCH'' endpoint data
       (Some (case auth of None \<Rightarrow> True | Some b \<Rightarrow> b))
       (Some (case getFullResponse of None \<Rightarrow> False | Some b \<Rightarrow> b)) sent"

definition get ::
    "('b, 'r) platform \<Rightarrow> string \<Rightarrow> bool option \<Rightarrow> bool option \<Rightarrow> 'b wire
       \<Rightarrow> (error + 'r reply) \<times> 'b wire" where
  "get env endpoint auth getFullResponse sent =
     request env ''GET'' endpoint JNull
       (Some (case auth of None \<Rightarrow> True | Some b \<Rightarrow> b))
       (Some (case getFullResponse of None \<Rightarrow> False | Some b \<Rightarrow> b)) sent"

definition del ::
    "('b, 'r) platform \<Rightarrow> string \<Rightarrow> jsval \<Rightarrow> bool option \<Rightarrow> bool option \<Rightarrow> 'b wire
       \<Rightarrow> (error + 'r reply) \<times> 'b wire" where
  "del env endpoint data auth getFullResponse sent =
     request env ''DELETE'' endpoint data
       (Some (case auth of None \<Rightarrow> True | Some b \<Rightarrow> b))
       (Some (case getFullResponse of None \<Rightarrow> False | Some b \<Rightarrow> b)) sent"

text \<open>
  \<^verbatim>\<open>res.data\<close>: a property read, which throws on \<^verbatim>\<open>null\<close> and \<^verbatim>\<open>undefined\<close> and gives
  \<^verbatim>\<open>undefined\<close> where no such property exists.
\<close>

definition data_of :: "'r reply \<Rightarrow> error + jsval" where
  "data_of res =
     (case res of
        Body (JObj props) \<Rightarrow>
          Inr (case map_of props ''data'' of None \<Rightarrow> JUndefined | Some v \<Rightarrow> v)
      | Body JNull \<Rightarrow> Inl TypeError
      | Body JUndefined \<Rightarrow> Inl TypeError
      | Body _ \<Rightarrow> Inr JUndefined
      | Response _ \<Rightarrow> Inr JUndefined)"

definition returning_data :: "(error + 'r reply) \<times> 'b wire \<Rightarrow> (error + jsval) \<times> 'b wire" where
  "returning_data r =
     (case r of
        (Inl err, sent) \<Rightarrow> (Inl err, sent)
      | (Inr res, sent) \<Rightarrow> (data_of res, sent))"

text \<open>The exported API functions.\<close>

definition login ::
    "('b, 'r) platform \<Rightarrow> jsval \<Rightarrow> jsval \<Rightarrow> 'b wire \<Rightarrow> (error + 'r reply) \<times> 'b wire" where
  "login env email password sent =
     post env ''login'' (JObj [(''email'', email), (''password'', password)]) (Some False) None sent"

definition register ::
    "('b, 'r) platform \<Rightarrow> jsval \<Rightarrow> jsval \<Rightarrow> 'b wire \<Rightarrow> (error + 'r reply) \<times> 'b wire" where
  "register env email password sent =
     (case post env ''users'' (JObj [(''email'', email), (''password'', password)])
             (Some False) None sent of
        (Inl err, sent1) \<Rightarrow> (Inl err, sent1)
      | (Inr _, sent1) \<Rightarrow> login env email password sent1)"

text \<open>\<^verbatim>\<open>const { password, ...dataToSend } = userData;\<close> keeps every other own property, in order.\<close>

definition rest_without :: "string \<Rightarrow> (string \<times> jsval) list \<Rightarrow> (string \<times> jsval) list" where
  "rest_without key obj = filter (\<lambda>(k, v). k \<noteq> key) obj"

definition patchProfile ::
    "('b, 'r) platform \<Rightarrow> jsid \<Rightarrow> (string \<times> jsval) list \<Rightarrow> 'b wire
       \<Rightarrow> (error + 'r reply) \<times> 'b wire" where
  "patchProfile env userId userData sent =
     (let dataToSend = rest_without ''password'' userData
      in patch env (''users/'' @ template userId) (JObj dataToSend) (Some True) (Some True) sent)"

definition getUsers :: "('b, 'r) platform \<Rightarrow> 'b wire \<Rightarrow> (error + 'r reply) \<times> 'b wire" where
  "getUsers env sent = get env ''users'' (Some True) (Some True) sent"

definition getUserById ::
    "('b, 'r) platform \<Rightarrow> jsid \<Rightarrow> 'b wire \<Rightarrow> (error + 'r reply) \<times> 'b wire" where
  "getUserById env ident sent = get env (''users/'' @ template ident) (Some True) (Some True) sent"

definition getUsersByName ::
    "('b, 'r) platform \<Rightarrow> string \<Rightarrow> 'b wire \<Rightarrow> (error + 'r reply) \<times> 'b wire" where
  "getUsersByName env name sent = get env (''users?name='' @ name) (Some True) (Some True) sent"

definition patchUser ::
    "('b, 'r) platform \<Rightarrow> jsid \<Rightarrow> jsval \<Rightarrow> 'b wire \<Rightarrow> (error + 'r reply) \<times> 'b wire" where
  "patchUser env ident photoUrl sent =
     patch env (''users/'' @ template ident) (JObj [(''photo'', photoUrl)]) None None sent"

definition getPosts :: "('b, 'r) platform \<Rightarrow> 'b wire \<Rightarrow> (error + jsval) \<times> 'b wire" where
  "getPosts env sent = returning_data (get env ''posts'' None None sent)"

definition postPost ::
    "('b, 'r) platform \<Rightarrow> jsid \<Rightarrow> jsval \<Rightarrow> 'b wire \<Rightarrow> (error + jsval) \<times> 'b wire" where
  "postPost env userId content sent =
     returning_data
       (post env ''posts'' (JObj [(''userid'', id_value userId), (''content'', content)])
          None None sent)"

definition deletePost ::
    "('b, 'r) platform \<Rightarrow> jsid \<Rightarrow> 'b wire \<Rightarrow> (error + jsval) \<times> 'b wire" where
  "deletePost env postId sent =
     returning_data (del env (''posts/'' @ template postId) JUndefined None None sent)"

definition patchPost ::
    "('b, 'r) platform \<Rightarrow> jsid \<Rightarrow> jsval \<Rightarrow> 'b wire \<Rightarrow> (error + jsval) \<times> 'b wire" where
  "patchPost env postId content sent =
     returning_data
       (patch env (''posts/'' @ template postId) (JObj [(''content'', content)]) None None sent)"

definition getCohorts :: "('b, 'r) platform \<Rightarrow> 'b wire \<Rightarrow> (error + 'r reply) \<times> 'b wire" where
  "getCohorts env sent = get env ''cohorts'' (Some True) (Some True) sent"

text \<open>
  The call sites of the module, one per exported function, with the requests each of them
  sends, and which of them pass \<^verbatim>\<open>auth = false\<close>.
\<close>

datatype api_call =
    LoginCall jsval jsval
  | RegisterCall jsval jsval
  | PatchProfileCall jsid "(string \<times> jsval) list"
  | GetUsersCall
  | GetUserByIdCall jsid
  | GetUsersByNameCall string
  | PatchUserCall jsid jsval
  | GetPostsCall
  | PostPostCall jsid jsval
  | DeletePostCall jsid
  | PatchPostCall jsid jsval
  | GetCohortsCall

fun requests_of :: "('b, 'r) platform \<Rightarrow> api_call \<Rightarrow> 'b wire" where
  "requests_of env (LoginCall email password) = snd (login env email password [])"
| "requests_of env (RegisterCall email password) = snd (register env email password [])"
| "requests_of env (PatchProfileCall userId userData) = snd (patchProfile env userId userData [])"
| "requests_of env GetUsersCall = snd (getUsers env [])"
| "requests_of env (GetUserByIdCall ident) = snd (getUserById env ident [])"
| "requests_of env (GetUsersByNameCall name) = snd (getUsersByName env name [])"
| "requests_of env (PatchUserCall ident photoUrl) = snd (patchUser env ident photoUrl [])"
| "requests_of env GetPostsCall = snd (getPosts env [])"
| "requests_of env (PostPostCall userId content) = snd (postPost env userId content [])"
| "requests_of env (DeletePostCall postId) = snd (deletePost env postId [])"
| "requests_of env (PatchPostCall postId content) = snd (patchPost env postId content [])"
| "requests_of env GetCohortsCall = snd (getCohorts env [])"

fun disables_auth :: "api_call \<Rightarrow> bool" where
  "disables_auth (LoginCall email password) = True"
| "disables_auth (RegisterCall email password) = True"
| "disables_auth _ = False"

text \<open>The \<^verbatim>\<open>Authorization\<close> header of an \<^verbatim>\<open>opts\<close> object, if it has one.\<close>

definition authorization :: "'b fetch_opts \<Rightarrow> string option" where
  "authorization opts = map_of (headers opts) ''Authorization''"

text \<open>
  Two objects that differ at most in the value of their \<^verbatim>\<open>password\<close> property: the same
  properties in the same order, with equal values everywhere else.
\<close>

definition differ_only_in_password ::
    "(string \<times> jsval) list \<Rightarrow> (string \<times> jsval) list \<Rightarrow> bool" where
  "differ_only_in_password a b =
     list_all2 (\<lambda>(k, v) (k', v'). k = k' \<and> (k \<noteq> ''password'' \<longrightarrow> v = v')) a b"

section \<open>Concrete states\<close>

text \<open>
  A store with three post objects (post \<open>r\<close> has id \<open>r\<close>; post 0 carries comments 0 and 1,
  post 1 carries comment 2; comment \<open>c\<close> has id \<open>10 + c\<close>), a dashboard showing posts 1
  and 0, and a platform whose server answers every URL but one.
\<close>

definition demo_store :: heap where
  "demo_store =
     \<lparr>post_at = (\<lambda>r. \<lparr>post_id = NumId (int r), post_userId = NumId 1, post_content = ''hello'',
                       post_comments = (if r = 0 then [0, 1] else if r = 1 then [2] else [])\<rparr>),
      comment_at = (\<lambda>c. \<lparr>comment_id = NumId (10 + int c), comment_postId = NumId 0,
                          comment_userId = NumId 1, comment_content = ''hi''\<rparr>),
      next_ref = 3\<rparr>"

definition demo_dashboard :: dashboard where
  "demo_dashboard = \<lparr>store = demo_store, posts = [1, 0], loadingPosts = False, console_error = []\<rparr>"

definition demo_env :: "(jsval, jsval) platform" where
  "demo_env =
     \<lparr>API_URL = ''http://localhost:4000'',
      JSON_stringify = (\<lambda>d. d),
      localStorage = [''token'' \<mapsto> ''abc''],
      fetch = (\<lambda>url opts. if url = ''http://localhost:4000/down'' then Inl (Rejection ''offline'')
                            else Inr (JObj [(''data'', JArr [])])),
      response_json = (\<lambda>response. Inr response)\<rparr>"

section \<open>Properties of the transforms\<close>

lemma array_map_untouched:
  "\<forall>p \<in> set ps. fn h p = (h, p) \<Longrightarrow> array_map fn h ps = (h, ps)"
  by (induction ps) simp_all

text \<open>
  All four arrow functions have one shape: a post with another id is returned as it is; a
  post with the given id is replaced by a newly allocated object. Over an array of
  allocated posts the new objects never overwrite an old one.
\<close>

lemma array_map_per_post:
  assumes shape: "\<And>h p. fn h p =
      (if pid_of h p = postId then alloc_post h (G (comment_at h) (post_at h p)) else (h, p))"
  assumes "allocated h ps" and "array_map fn h ps = (h', ps')"
  shows "comment_at h' = comment_at h \<and> next_ref h \<le> next_ref h' \<and>
         (\<forall>a<next_ref h. post_at h' a = post_at h a) \<and>
         list_all2 (\<lambda>p p'. if pid_of h p = postId
                      then next_ref h \<le> p' \<and> p' < next_ref h' \<and>
                           post_at h' p' = G (comment_at h) (post_at h p)
                      else p' = p) ps ps'"
  using assms(2,3)
proof (induction ps arbitrary: h h' ps')
  case Nil
  then show ?case by simp
next
  case (Cons p ps)
  obtain h1 p1 where f: "fn h p = (h1, p1)" by (cases "fn h p")
  obtain h2 ps2 where r: "array_map fn h1 ps = (h2, ps2)" by (cases "array_map fn h1 ps")
  from Cons.prems(2) f r have eqs: "h' = h2" "ps' = p1 # ps2" by simp_all
  from Cons.prems(1) have pa: "p < next_ref h" and psa: "allocated h ps"
    by (simp_all add: allocated_def)
  show ?case
  proof (cases "pid_of h p = postId")
    case False
    with f shape have h1: "h1 = h" "p1 = p" by simp_all
    from Cons.IH[OF psa r[unfolded h1]] False show ?thesis
      unfolding eqs h1 by simp
  next
    case True
    with f shape have a: "alloc_post h (G (comment_at h) (post_at h p)) = (h1, p1)" by simp
    then have p1: "p1 = next_ref h" and n1: "next_ref h1 = Suc (next_ref h)"
      and c1: "comment_at h1 = comment_at h"
      and o1: "post_at h1 = (post_at h)(next_ref h := G (comment_at h) (post_at h p))"
      by (auto simp: alloc_post_def)
    have psa1: "allocated h1 ps" using psa n1 by (auto simp: allocated_def list_all_iff)
    note IH = Cons.IH[OF psa1 r]
    have same_id: "\<And>q. q \<in> set ps \<Longrightarrow> pid_of h1 q = pid_of h q \<and> post_at h1 q = post_at h q"
      using psa o1 by (auto simp: allocated_def list_all_iff pid_of_def)
    have tl: "list_all2 (\<lambda>p p'. if pid_of h p = postId
                      then next_ref h \<le> p' \<and> p' < next_ref h2 \<and>
                           post_at h2 p' = G (comment_at h) (post_at h p)
                      else p' = p) ps ps2"
      using IH same_id unfolding n1 c1
      by (auto simp: list_all2_conv_all_nth)
    have hd: "post_at h2 p1 = G (comment_at h) (post_at h p)"
      using IH o1 n1 p1 by simp
    show ?thesis unfolding eqs using IH True tl hd p1 n1 c1 o1
      by auto
  qed
qed

lemma updatePost_fn_shape:
  "updatePost_fn postId updatedPost refreshedComments h p =
     (if pid_of h p = postId
      then alloc_post h ((\<lambda>ca q. updatedPost\<lparr>post_comments := refreshedComments\<rparr>) (comment_at h) (post_at h p))
      else (h, p))"
  by (simp add: updatePost_fn_def)

lemma commentPost_fn_shape:
  "commentPost_fn postId savedComment h p =
     (if pid_of h p = postId
      then alloc_post h ((\<lambda>ca q. q\<lparr>post_comments := post_comments q @ [savedComment]\<rparr>) (comment_at h) (post_at h p))
      else (h, p))"
  by (simp add: commentPost_fn_def comments_of_def)

lemma deleteComment_fn_shape:
  "deleteComment_fn postId commentId h p =
     (if pid_of h p = postId
      then alloc_post h ((\<lambda>ca q. q\<lparr>post_comments :=
               filter (\<lambda>c. comment_id (ca c) \<noteq> commentId) (post_comments q)\<rparr>) (comment_at h) (post_at h p))
      else (h, p))"
  by (simp add: deleteComment_fn_def comments_of_def cid_of_def)

lemma updateComment_fn_shape:
  "updateComment_fn postId commentId updatedComment h p =
     (if pid_of h p = postId
      then alloc_post h ((\<lambda>ca q. q\<lparr>post_comments :=
               map (\<lambda>c. if comment_id (ca c) = commentId then updatedComment else c) (post_comments q)\<rparr>)
             (comment_at h) (post_at h p))
      else (h, p))"
  by (simp add: updateComment_fn_def comments_of_def cid_of_def)

lemma filter_single_split:
  assumes "length (filter P l) = 1"
  shows "\<exists>xs c ys. l = xs @ c # ys \<and> P c \<and> filter (\<lambda>x. \<not> P x) l = xs @ ys"
proof -
  from assms obtain c where "filter P l = [c]"
    by (cases "filter P l") auto
  then obtain us vs where l: "l = us @ c # vs" and us: "\<forall>u\<in>set us. \<not> P u"
      and c: "P c" and vs: "[] = filter P vs"
    unfolding filter_eq_Cons_iff by blast
  from vs have "\<forall>v\<in>set vs. \<not> P v" by (metis filter_empty_conv)
  with us have "filter (\<lambda>x. \<not> P x) us = us" "filter (\<lambda>x. \<not> P x) vs = vs"
    by (simp_all add: filter_id_conv)
  with l c show ?thesis by auto
qed

lemma once_in_concat:
  assumes once: "length (filter P (concat (map f ps))) = 1"
    and i: "i < length ps" and here: "\<exists>c\<in>set (f (ps ! i)). P c"
  shows "length (filter P (f (ps ! i))) = 1"
    and "\<And>j. j < length ps \<Longrightarrow> j \<noteq> i \<Longrightarrow> filter P (f (ps ! j)) = []"
proof -
  define g where "g p = length (filter P (f p))" for p
  have "length (filter P (concat (map f ps))) = sum_list (map g ps)"
    by (induction ps) (simp_all add: g_def)
  also have "\<dots> = (\<Sum>k = 0..<length ps. g (ps ! k))"
    by (simp add: sum_list_sum_nth)
  finally have total: "(\<Sum>k = 0..<length ps. g (ps ! k)) = 1" using once by simp
  from here have pos: "1 \<le> g (ps ! i)"
    by (auto simp: g_def filter_empty_conv Suc_le_eq)
  have "g (ps ! i) \<le> (\<Sum>k = 0..<length ps. g (ps ! k))"
    using i by (intro member_le_sum) simp_all
  with total pos show "length (filter P (f (ps ! i))) = 1" by (simp add: g_def)
  fix j assume j: "j < length ps" "j \<noteq> i"
  have "(\<Sum>k \<in> {i, j}. g (ps ! k)) \<le> (\<Sum>k = 0..<length ps. g (ps ! k))"
    using i j by (intro sum_mono2) auto
  with j total pos have "g (ps ! j) = 0" by simp
  then show "filter P (f (ps ! j)) = []" by (simp add: g_def)
qed

lemmas dashboard_eval =
  demo_dashboard_def demo_store_def pid_of_def comments_of_def cid_of_def allocated_def
  updatePosts_def updatePost_fn_def commentPost_fn_def deleteComment_fn_def
  updateComment_fn_def alloc_post_def handleUpdatePost_def

lemma run_post_ops_result:
  "posts (run_post_ops s ops) =
     surviving_creates (store s) ops @ surviving_initial (store s) ops (posts s)
   \<and> store (run_post_ops s ops) = store s"
proof (induction ops arbitrary: s)
  case Nil
  show ?case by (simp add: run_post_ops_def surviving_initial_def)
next
  case (Cons op ops)
  have step: "run_post_ops s (op # ops) = run_post_ops (apply_post_op s op) ops"
    by (simp add: run_post_ops_def)
  show ?case
  proof (cases op)
    case (CreatePost r)
    then have a: "posts (apply_post_op s op) = r # posts s" "store (apply_post_op s op) = store s"
      by (simp_all add: apply_post_op_def handlePostSubmit_def prependPost_def)
    show ?thesis unfolding step using Cons.IH[of "apply_post_op s op"] a CreatePost
      by (simp add: surviving_initial_def)
  next
    case (DeletePost i)
    then have a: "posts (apply_post_op s op) = filter (\<lambda>p. pid_of (store s) p \<noteq> i) (posts s)"
      "store (apply_post_op s op) = store s"
      by (simp_all add: apply_post_op_def handleDeletePost_def removePost_def)
    show ?thesis unfolding step using Cons.IH[of "apply_post_op s op"] a DeletePost
      by (auto simp add: surviving_initial_def intro!: filter_cong)
  qed
qed

lemma surviving_creates_subset: "set (surviving_creates h ops) \<subseteq> set (created ops)"
  by (induction h ops rule: surviving_creates.induct) auto

lemma surviving_creates_distinct:
  "distinct (map f (created ops)) \<Longrightarrow> distinct (map f (surviving_creates h ops))"
proof (induction h ops rule: surviving_creates.induct)
  case (2 h savedPost ops)
  then show ?case using surviving_creates_subset[of h ops] by auto
qed simp_all

section \<open>Properties of the API client\<close>

lemma request_sent:
  "snd (request env meth endpoint data auth getFullResponse sent) =
     sent @ [(API_URL env @ ''/'' @ endpoint,
              request_opts env meth data (case auth of None \<Rightarrow> True | Some b \<Rightarrow> b))]"
  by (simp add: request_def Let_def split: sum.split)

lemma upper_verbs:
  "toUpperCase ''POST'' \<noteq> ''GET''" "toUpperCase ''PATCH'' \<noteq> ''GET''"
  "toUpperCase ''DELETE'' \<noteq> ''GET''" "toUpperCase ''GET'' = ''GET''"
  by (simp_all add: toUpperCase_def)

lemma authorization_request_opts:
  "authorization (request_opts env meth data auth) =
     (if auth then Some (''Bearer '' @ getItem (localStorage env) ''token'') else None)"
  by (simp add: authorization_def request_opts_def Let_def)

lemma body_request_opts:
  "body (request_opts env meth data auth) =
     (if toUpperCase meth = ''GET'' then None else Some (JSON_stringify env data))"
  by (simp add: request_opts_def Let_def)

lemma post_sent:
  "snd (post env endpoint data auth full sent) =
     sent @ [(API_URL env @ ''/'' @ endpoint,
              request_opts env ''POST'' data (case auth of None \<Rightarrow> True | Some b \<Rightarrow> b))]"
  by (simp add: post_def request_sent)

lemma patch_sent:
  "snd (patch env endpoint data auth full sent) =
     sent @ [(API_URL env @ ''/'' @ endpoint,
              request_opts env ''PATCH'' data (case auth of None \<Rightarrow> True | Some b \<Rightarrow> b))]"
  by (simp add: patch_def request_sent)

lemma get_sent:
  "snd (get env endpoint auth full sent) =
     sent @ [(API_URL env @ ''/'' @ endpoint,
              request_opts env ''GET'' JNull (case auth of None \<Rightarrow> True | Some b \<Rightarrow> b))]"
  by (simp add: get_def request_sent)

lemma del_sent:
  "snd (del env endpoint data auth full sent) =
     sent @ [(API_URL env @ ''/'' @ endpoint,
              request_opts env ''DELETE'' data (case auth of None \<Rightarrow> True | Some b \<Rightarrow> b))]"
  by (simp add: del_def request_sent)

lemma returning_data_sent: "snd (returning_data r) = snd r"
  by (simp add: returning_data_def split: prod.split sum.split)

lemma register_sent:
  "\<exists>rest. snd (register env email password []) =
     (API_URL env @ ''/users'',
      request_opts env ''POST'' (JObj [(''email'', email), (''password'', password)]) False) # rest
   \<and> set rest \<subseteq> {(API_URL env @ ''/login'',
      request_opts env ''POST'' (JObj [(''email'', email), (''password'', password)]) False)}"
proof -
  let ?p = "post env ''users'' (JObj [(''email'', email), (''password'', password)]) (Some False) None []"
  have s: "snd ?p = [(API_URL env @ ''/users'',
      request_opts env ''POST'' (JObj [(''email'', email), (''password'', password)]) False)]"
    by (simp add: post_sent)
  obtain r sent1 where p: "?p = (r, sent1)" by (cases ?p)
  with s have sent1: "sent1 = [(API_URL env @ ''/users'',
      request_opts env ''POST'' (JObj [(''email'', email), (''password'', password)]) False)]"
    by simp
  show ?thesis
  proof (cases r)
    case (Inl e)
    with p sent1 show ?thesis by (simp add: register_def)
  next
    case (Inr v)
    with p sent1 show ?thesis by (simp add: register_def login_def post_sent)
  qed
qed

lemma rest_without_password_eq:
  "differ_only_in_password a b \<Longrightarrow> rest_without ''password'' a = rest_without ''password'' b"
  unfolding differ_only_in_password_def rest_without_def
  by (induction a b rule: list_all2_induct) auto

section \<open>Claims\<close>

text \<open>
  C1. Running the update-post transform over a posts array leaves every post whose id
  differs from the updated id in place: the array keeps its length, each such element is
  the same reference as before, and the object behind it has the same field values.
\<close>

theorem update_post_keeps_other_posts:
  assumes alloc: "allocated (store s) (posts s)"
    and s': "s' = updatePosts (updatePost_fn postId updatedPost refreshedComments) s"
  shows "length (posts s') = length (posts s)
       \<and> (\<forall>i<length (posts s). pid_of (store s) (posts s ! i) \<noteq> postId \<longrightarrow>
             posts s' ! i = posts s ! i
           \<and> post_at (store s') (posts s' ! i) = post_at (store s) (posts s ! i))"
proof -
  obtain h' ps' where run:
    "array_map (updatePost_fn postId updatedPost refreshedComments) (store s) (posts s) = (h', ps')"
    by (cases "array_map (updatePost_fn postId updatedPost refreshedComments) (store s) (posts s)")
  with s' have st: "store s' = h'" "posts s' = ps'" by (simp_all add: updatePosts_def)
  note g = array_map_per_post[OF updatePost_fn_shape alloc run]
  from g have len: "length ps' = length (posts s)"
    by (auto dest: list_all2_lengthD)
  have "ps' ! i = posts s ! i \<and> post_at h' (ps' ! i) = post_at (store s) (posts s ! i)"
    if "i < length (posts s)" "pid_of (store s) (posts s ! i) \<noteq> postId" for i
  proof -
    from g that have same: "ps' ! i = posts s ! i"
      by (auto dest: list_all2_nthD2 simp: len)
    from alloc that(1) have "posts s ! i < next_ref (store s)"
      by (simp add: allocated_def list_all_length)
    with g same show ?thesis by simp
  qed
  with len show ?thesis unfolding st by blast
qed

theorem update_post_keeps_other_posts_witness:
  "allocated (store demo_dashboard) (posts demo_dashboard)
   \<and> length (posts (updatePosts (updatePost_fn (NumId 0) (post_at demo_store 0) [2]) demo_dashboard)) = 2
   \<and> posts (updatePosts (updatePost_fn (NumId 0) (post_at demo_store 0) [2]) demo_dashboard) ! 0 = 1
   \<and> post_at (store (updatePosts (updatePost_fn (NumId 0) (post_at demo_store 0) [2]) demo_dashboard)) 1
       = post_at demo_store 1"
  using update_post_keeps_other_posts[OF _ refl, of demo_dashboard "NumId 0" "post_at demo_store 0" "[2]"]
  by (simp add: dashboard_eval)

text \<open>
  C2, as stated: the final length is the number of initial posts plus the number of creates
  that no later delete of the same id follows. It fails when a delete names an initial
  post: from the two posts with ids 1 and 0, deleting id 0 leaves one post, not two.
\<close>

theorem create_delete_length_counterexample:
  "distinct (map (pid_of (store demo_dashboard)) (posts demo_dashboard))
   \<and> length (posts (run_post_ops demo_dashboard [DeletePost (NumId 0)]))
       \<noteq> length (posts demo_dashboard)
         + length (surviving_creates (store demo_dashboard) [DeletePost (NumId 0)])"
  by (simp add: run_post_ops_def apply_post_op_def handleDeletePost_def removePost_def
      demo_dashboard_def demo_store_def pid_of_def)

text \<open>
  C2, amended. When the ids of the initial posts and of the created posts are pairwise
  distinct, the posts after a sequence of creates and deletes are exactly the creates that
  no later delete of the same id follows, newest first, followed by the initial posts whose
  id no delete names, in their order; the length is the sum of the two counts, and no id
  occurs twice.
\<close>

theorem create_delete_survivors:
  assumes fresh: "distinct (map (pid_of (store s)) (created ops @ posts s))"
  shows "posts (run_post_ops s ops) =
           surviving_creates (store s) ops @ surviving_initial (store s) ops (posts s)
       \<and> length (posts (run_post_ops s ops)) =
           length (surviving_initial (store s) ops (posts s))
           + length (surviving_creates (store s) ops)
       \<and> distinct (map (pid_of (store (run_post_ops s ops))) (posts (run_post_ops s ops)))"
proof -
  let ?f = "pid_of (store s)"
  note r = run_post_ops_result[of s ops]
  from fresh have d1: "distinct (map ?f (surviving_creates (store s) ops))"
    by (intro surviving_creates_distinct) simp
  from fresh have d2: "distinct (map ?f (surviving_initial (store s) ops (posts s)))"
    by (simp add: surviving_initial_def distinct_map_filter)
  from fresh have "?f ` set (created ops) \<inter> ?f ` set (posts s) = {}" by simp
  moreover have "set (surviving_initial (store s) ops (posts s)) \<subseteq> set (posts s)"
    by (auto simp: surviving_initial_def)
  ultimately have d3: "?f ` set (surviving_creates (store s) ops)
      \<inter> ?f ` set (surviving_initial (store s) ops (posts s)) = {}"
    using surviving_creates_subset[of "store s" ops] by blast
  from d1 d2 d3 r show ?thesis by simp
qed

theorem create_delete_survivors_witness:
  "distinct (map (pid_of (store demo_dashboard))
      (created [CreatePost 2, DeletePost (NumId 0), DeletePost (NumId 2)] @ posts demo_dashboard))
   \<and> posts (run_post_ops demo_dashboard [CreatePost 2, DeletePost (NumId 0), DeletePost (NumId 2)]) = [1]
   \<and> length (posts (run_post_ops demo_dashboard
        [CreatePost 2, DeletePost (NumId 0), DeletePost (NumId 2)])) = 1 + 0"
  using create_delete_survivors[of demo_dashboard
      "[CreatePost 2, DeletePost (NumId 0), DeletePost (NumId 2)]"]
  by (simp add: demo_dashboard_def demo_store_def pid_of_def surviving_initial_def)

text \<open>
  C3. When the post at position \<open>i\<close> has the given id and both server calls succeed, the
  update-post handler leaves at position \<open>i\<close> a post whose comments are exactly the fetched
  sequence, whatever its comments were before, and the comments of every post with another
  id stay as they were.
\<close>

theorem update_post_refreshes_comments:
  assumes alloc: "allocated (store s) (posts s)"
    and i: "i < length (posts s)" and match: "pid_of (store s) (posts s ! i) = postId"
    and s': "s' = fst (handleUpdatePost (Inr updatedPost) (Inr refreshedComments) postId s)"
  shows "length (posts s') = length (posts s)
       \<and> comments_of (store s') (posts s' ! i) = refreshedComments
       \<and> (\<forall>j<length (posts s). pid_of (store s) (posts s ! j) \<noteq> postId \<longrightarrow>
             comments_of (store s') (posts s' ! j) = comments_of (store s) (posts s ! j))"
proof -
  obtain h' ps' where run:
    "array_map (updatePost_fn postId updatedPost refreshedComments) (store s) (posts s) = (h', ps')"
    by (cases "array_map (updatePost_fn postId updatedPost refreshedComments) (store s) (posts s)")
  with s' have st: "store s' = h'" "posts s' = ps'"
    by (simp_all add: handleUpdatePost_def updatePosts_def)
  note g = array_map_per_post[OF updatePost_fn_shape alloc run]
  from g have len: "length ps' = length (posts s)"
    by (auto dest: list_all2_lengthD)
  from g i match have here: "comments_of h' (ps' ! i) = refreshedComments"
    by (auto dest!: list_all2_nthD2 [where p = i] simp: len comments_of_def)
  have "comments_of h' (ps' ! j) = comments_of (store s) (posts s ! j)"
    if "j < length (posts s)" "pid_of (store s) (posts s ! j) \<noteq> postId" for j
  proof -
    from g that have same: "ps' ! j = posts s ! j"
      by (auto dest: list_all2_nthD2 simp: len)
    from alloc that(1) have "posts s ! j < next_ref (store s)"
      by (simp add: allocated_def list_all_length)
    with g same show ?thesis by (simp add: comments_of_def)
  qed
  with len st here show ?thesis by simp
qed

theorem update_post_refreshes_comments_witness:
  "allocated (store demo_dashboard) (posts demo_dashboard)
   \<and> (1::nat) < length (posts demo_dashboard)
   \<and> pid_of (store demo_dashboard) (posts demo_dashboard ! 1) = NumId 0
   \<and> comments_of (store (fst (handleUpdatePost (Inr (post_at demo_store 0)) (Inr [2]) (NumId 0) demo_dashboard)))
        (posts (fst (handleUpdatePost (Inr (post_at demo_store 0)) (Inr [2]) (NumId 0) demo_dashboard)) ! 1) = [2]
   \<and> comments_of (store (fst (handleUpdatePost (Inr (post_at demo_store 0)) (Inr [2]) (NumId 0) demo_dashboard)))
        (posts (fst (handleUpdatePost (Inr (post_at demo_store 0)) (Inr [2]) (NumId 0) demo_dashboard)) ! 0) = [2]"
  using update_post_refreshes_comments[OF _ _ _ refl, of demo_dashboard 1 "NumId 0" "post_at demo_store 0" "[2]"]
  by (simp add: dashboard_eval)

text \<open>
  C4. When the given comment id occurs exactly once over all comment sequences, in the post
  at position \<open>i\<close>, which has the given post id, the delete-comment transform takes exactly
  that one comment out of that post's sequence, keeping the comments before and after it in
  their order and as the same references, leaves every other position's comment sequence
  as it was, and changes no comment object.
\<close>

theorem delete_comment_removes_one:
  assumes alloc: "allocated (store s) (posts s)"
    and once: "length (filter (\<lambda>c. cid_of (store s) c = commentId)
                 (concat (map (comments_of (store s)) (posts s)))) = 1"
    and i: "i < length (posts s)" and match: "pid_of (store s) (posts s ! i) = postId"
    and inside: "\<exists>c\<in>set (comments_of (store s) (posts s ! i)). cid_of (store s) c = commentId"
    and s': "s' = updatePosts (deleteComment_fn postId commentId) s"
  shows "length (posts s') = length (posts s)
       \<and> comment_at (store s') = comment_at (store s)
       \<and> (\<exists>xs c ys. comments_of (store s) (posts s ! i) = xs @ c # ys
             \<and> cid_of (store s) c = commentId
             \<and> comments_of (store s') (posts s' ! i) = xs @ ys)
       \<and> (\<forall>j<length (posts s). j \<noteq> i \<longrightarrow>
             comments_of (store s') (posts s' ! j) = comments_of (store s) (posts s ! j))"
proof -
  let ?P = "\<lambda>c. cid_of (store s) c = commentId"
  obtain h' ps' where run:
    "array_map (deleteComment_fn postId commentId) (store s) (posts s) = (h', ps')"
    by (cases "array_map (deleteComment_fn postId commentId) (store s) (posts s)")
  with s' have st: "store s' = h'" "posts s' = ps'" by (simp_all add: updatePosts_def)
  note g = array_map_per_post[OF deleteComment_fn_shape alloc run]
  from g have len: "length ps' = length (posts s)"
    by (auto dest: list_all2_lengthD)
  have new: "comments_of h' (ps' ! j) =
      (if pid_of (store s) (posts s ! j) = postId
       then filter (\<lambda>c. \<not> ?P c) (comments_of (store s) (posts s ! j))
       else comments_of (store s) (posts s ! j))"
    if j: "j < length (posts s)" for j
  proof (cases "pid_of (store s) (posts s ! j) = postId")
    case True
    with g j show ?thesis
      by (auto dest!: list_all2_nthD2 [where p = j] simp: len comments_of_def cid_of_def)
  next
    case False
    with g j have same: "ps' ! j = posts s ! j"
      by (auto dest: list_all2_nthD2 simp: len)
    from alloc j have "posts s ! j < next_ref (store s)"
      by (simp add: allocated_def list_all_length)
    with g same False show ?thesis by (simp add: comments_of_def)
  qed
  from once_in_concat(1)[OF once i inside]
  obtain xs c ys where split: "comments_of (store s) (posts s ! i) = xs @ c # ys" "?P c"
      "filter (\<lambda>c. \<not> ?P c) (comments_of (store s) (posts s ! i)) = xs @ ys"
    using filter_single_split by blast
  with new[OF i] match have at_i: "\<exists>xs c ys. comments_of (store s) (posts s ! i) = xs @ c # ys
             \<and> cid_of (store s) c = commentId \<and> comments_of h' (ps' ! i) = xs @ ys"
    by auto
  have others: "comments_of h' (ps' ! j) = comments_of (store s) (posts s ! j)"
    if j: "j < length (posts s)" "j \<noteq> i" for j
  proof -
    from once_in_concat(2)[OF once i inside j]
    have "filter (\<lambda>c. \<not> ?P c) (comments_of (store s) (posts s ! j)) = comments_of (store s) (posts s ! j)"
      by (simp add: filter_empty_conv filter_id_conv)
    with new[OF j(1)] show ?thesis by simp
  qed
  from g have "comment_at h' = comment_at (store s)" by simp
  with len st at_i others show ?thesis by simp
qed

theorem delete_comment_removes_one_witness:
  "allocated (store demo_dashboard) (posts demo_dashboard)
   \<and> length (filter (\<lambda>c. cid_of (store demo_dashboard) c = NumId 11)
                 (concat (map (comments_of (store demo_dashboard)) (posts demo_dashboard)))) = 1
   \<and> (1::nat) < length (posts demo_dashboard)
   \<and> pid_of (store demo_dashboard) (posts demo_dashboard ! 1) = NumId 0
   \<and> (\<exists>c\<in>set (comments_of (store demo_dashboard) (posts demo_dashboard ! 1)).
         cid_of (store demo_dashboard) c = NumId 11)
   \<and> comments_of (store demo_dashboard) (posts demo_dashboard ! 1) = [0, 1]
   \<and> (\<exists>xs c ys. [0, 1] = xs @ c # ys \<and> cid_of (store demo_dashboard) c = NumId 11
         \<and> comments_of (store (updatePosts (deleteComment_fn (NumId 0) (NumId 11)) demo_dashboard))
              (posts (updatePosts (deleteComment_fn (NumId 0) (NumId 11)) demo_dashboard) ! 1) = xs @ ys)
   \<and> comments_of (store (updatePosts (deleteComment_fn (NumId 0) (NumId 11)) demo_dashboard))
        (posts (updatePosts (deleteComment_fn (NumId 0) (NumId 11)) demo_dashboard) ! 0) = [2]"
  using delete_comment_removes_one[OF _ _ _ _ _ refl, of demo_dashboard "NumId 11" 1 "NumId 0"]
  by (simp add: dashboard_eval)

text \<open>
  C5, as stated: no mutation handler catches the rejection of its server call. The
  create-post handler does: its \<^verbatim>\<open>try\<close>/\<^verbatim>\<open>catch\<close> logs the error and the handler resolves.
\<close>

theorem failed_call_counterexample:
  "snd (handlePostSubmit (Inl (Rejection ''500'')) (initial_dashboard demo_store))
     \<noteq> Inl (Rejection ''500'')"
  by (simp add: handlePostSubmit_def)

text \<open>
  C5, amended. When its server call rejects (for update post: either of its two calls), a
  handler leaves the posts state as it was. The handlers for delete post, update post and
  the three comment actions leave the whole state unchanged and reject with the same error;
  the create-post handler hands the error to \<^verbatim>\<open>console.error\<close> and resolves.
\<close>

theorem failed_call_leaves_posts:
  "handleDeletePost (Inl err) postId s = (s, Inl err)
   \<and> handleUpdatePost (Inl err) fetched postId s = (s, Inl err)
   \<and> handleUpdatePost (Inr updatedPost) (Inl err) postId s = (s, Inl err)
   \<and> handleCommentPost (Inl err) postId s = (s, Inl err)
   \<and> handleDeleteComment (Inl err) postId commentId s = (s, Inl err)
   \<and> handleUpdateComment (Inl err) postId commentId s = (s, Inl err)
   \<and> handlePostSubmit (Inl err) s = (s\<lparr>console_error := console_error s @ [err]\<rparr>, Inr ())
   \<and> posts (fst (handlePostSubmit (Inl err) s)) = posts s
   \<and> store (fst (handlePostSubmit (Inl err) s)) = store s"
  by (simp add: handleDeletePost_def handleUpdatePost_def handleCommentPost_def
      handleDeleteComment_def handleUpdateComment_def handlePostSubmit_def)

theorem failed_call_leaves_posts_witness:
  "handleDeletePost (Inl (Rejection ''500'')) (NumId 0) demo_dashboard
     = (demo_dashboard, Inl (Rejection ''500''))
   \<and> handleUpdatePost (Inr (post_at demo_store 0)) (Inl TypeError) (NumId 0) demo_dashboard
     = (demo_dashboard, Inl TypeError)
   \<and> posts (fst (handlePostSubmit (Inl (Rejection ''500'')) demo_dashboard)) = [1, 0]"
  using failed_call_leaves_posts[where err = "Rejection ''500''" and postId = "NumId 0"
          and s = demo_dashboard]
        failed_call_leaves_posts[where err = TypeError and postId = "NumId 0"
          and s = demo_dashboard and updatedPost = "post_at demo_store 0"]
  by (simp add: demo_dashboard_def)

text \<open>
  C6. Starting from the initial state, the initial load sets the posts to the reversal of
  the array the server returned; when the fetch rejects (or resolves with something that is
  not an array) the posts stay empty; and whatever the outcome, from whatever state,
  \<open>loadingPosts\<close> ends up false.
\<close>

theorem initial_load_posts:
  "posts (fetchPosts (Inr (PostsArray postsFromApi)) (initial_dashboard h)) = rev postsFromApi
   \<and> posts (fetchPosts (Inl err) (initial_dashboard h)) = []
   \<and> posts (fetchPosts (Inr NotAnArray) (initial_dashboard h)) = []
   \<and> loadingPosts (initial_dashboard h)
   \<and> \<not> loadingPosts (fetchPosts got s)"
  by (simp add: fetchPosts_def initial_dashboard_def Let_def split: sum.split posts_payload.split)

theorem initial_load_posts_witness:
  "posts (fetchPosts (Inr (PostsArray [0, 1, 2])) (initial_dashboard demo_store)) = [2, 1, 0]
   \<and> posts (fetchPosts (Inl (Rejection ''offline'')) (initial_dashboard demo_store)) = []
   \<and> \<not> loadingPosts (fetchPosts (Inl (Rejection ''offline'')) (initial_dashboard demo_store))"
  using initial_load_posts[where postsFromApi = "[0, 1, 2]" and h = demo_store
          and err = "Rejection ''offline''" and got = "Inl (Rejection ''offline'')"
          and s = "initial_dashboard demo_store"]
  by simp

text \<open>
  C7. The \<^verbatim>\<open>opts\<close> that \<^verbatim>\<open>request\<close> builds and sends carry the header
  \<^verbatim>\<open>Authorization: Bearer <token>\<close>, with the token as read from \<^verbatim>\<open>localStorage\<close> at the
  time of the call, exactly when the auth flag is on, and no such header otherwise. Of the
  functions of the module, each sends at least one request, and its requests lack the
  header exactly for \<^verbatim>\<open>login\<close> and \<^verbatim>\<open>register\<close>.
\<close>

theorem authorization_iff_auth:
  "authorization (request_opts env meth data auth) =
     (if auth
      then Some (''Bearer '' @ (case localStorage env ''token'' of None \<Rightarrow> ''null'' | Some t \<Rightarrow> t))
      else None)
   \<and> snd (request env meth endpoint data authFlag getFullResponse sent) =
       sent @ [(API_URL env @ ''/'' @ endpoint,
                request_opts env meth data (case authFlag of None \<Rightarrow> True | Some b \<Rightarrow> b))]
   \<and> requests_of env call \<noteq> []
   \<and> (\<forall>(url, opts) \<in> set (requests_of env call).
         (authorization opts = None) = disables_auth call)"
proof -
  have calls: "requests_of env call \<noteq> [] \<and>
      (\<forall>(url, opts) \<in> set (requests_of env call). (authorization opts = None) = disables_auth call)"
  proof (cases call)
    case (RegisterCall email password)
    let ?d = "JObj [(''email'', email), (''password'', password)]"
    from register_sent[of env email password] obtain rest where
      r: "snd (register env email password []) =
            (API_URL env @ ''/users'', request_opts env ''POST'' ?d False) # rest"
         "set rest \<subseteq> {(API_URL env @ ''/login'', request_opts env ''POST'' ?d False)}"
      by blast
    have "authorization (request_opts env ''POST'' ?d False) = None"
      by (simp add: authorization_request_opts)
    with r show ?thesis unfolding RegisterCall by fastforce
  qed (simp_all add: login_def patchProfile_def getUsers_def getUserById_def getUsersByName_def
        patchUser_def getPosts_def postPost_def deletePost_def patchPost_def getCohorts_def
        returning_data_sent post_sent patch_sent get_sent del_sent authorization_request_opts)
  show ?thesis using calls
    by (simp add: authorization_request_opts request_sent getItem_def)
qed

theorem authorization_iff_auth_witness:
  "authorization (request_opts demo_env ''POST'' JNull True) = Some ''Bearer abc''
   \<and> authorization (request_opts demo_env ''POST'' JNull False) = None
   \<and> map (\<lambda>(url, opts). (url, authorization opts))
        (requests_of demo_env (RegisterCall (JStr ''a@b.c'') (JStr ''pw'')))
       = [(''http://localhost:4000/users'', None), (''http://localhost:4000/login'', None)]
   \<and> map (\<lambda>(url, opts). (url, authorization opts)) (requests_of demo_env GetPostsCall)
       = [(''http://localhost:4000/posts'', Some ''Bearer abc'')]"
proof -
  have tok: "getItem (localStorage demo_env) ''token'' = ''abc''"
    by (simp add: demo_env_def getItem_def)
  have url: "API_URL demo_env = ''http://localhost:4000''"
    by (simp add: demo_env_def)
  have up: "fetch demo_env ''http://localhost:4000/users'' opts = Inr (JObj [(''data'', JArr [])])" for opts
    by (simp add: demo_env_def)
  have lg: "fetch demo_env ''http://localhost:4000/login'' opts = Inr (JObj [(''data'', JArr [])])" for opts
    by (simp add: demo_env_def)
  have js: "response_json demo_env r = Inr r" for r
    by (simp add: demo_env_def)
  have reg: "requests_of demo_env (RegisterCall (JStr ''a@b.c'') (JStr ''pw'')) =
      [(''http://localhost:4000/users'',
          request_opts demo_env ''POST'' (JObj [(''email'', JStr ''a@b.c''), (''password'', JStr ''pw'')]) False),
       (''http://localhost:4000/login'',
          request_opts demo_env ''POST'' (JObj [(''email'', JStr ''a@b.c''), (''password'', JStr ''pw'')]) False)]"
    by (simp add: register_def login_def post_def request_def Let_def url up lg js)
  have gp: "requests_of demo_env GetPostsCall =
      [(''http://localhost:4000/posts'', request_opts demo_env ''GET'' JNull True)]"
    by (simp add: getPosts_def returning_data_sent get_sent url)
  note t1 = authorization_iff_auth[of demo_env "''POST''" JNull True "''x''" None None "[]"
          "RegisterCall (JStr ''a@b.c'') (JStr ''pw'')"]
  note t2 = authorization_iff_auth[of demo_env "''POST''" JNull False "''x''" None None "[]" GetPostsCall]
  from t1 have a1: "authorization (request_opts demo_env ''POST'' JNull True) = Some ''Bearer abc''"
    by (simp add: demo_env_def)
  from t2 have a2: "authorization (request_opts demo_env ''POST'' JNull False) = None"
    by simp
  from t1 have a3: "map (\<lambda>(url, opts). (url, authorization opts))
        (requests_of demo_env (RegisterCall (JStr ''a@b.c'') (JStr ''pw'')))
       = [(''http://localhost:4000/users'', None), (''http://localhost:4000/login'', None)]"
    unfolding reg by simp
  from t2 have a4: "map (\<lambda>(url, opts). (url, authorization opts)) (requests_of demo_env GetPostsCall)
       = [(''http://localhost:4000/posts'', Some ''Bearer abc'')]"
    unfolding gp by (simp add: authorization_request_opts tok)
  from a1 a2 a3 a4 show ?thesis by blast
qed

text \<open>
  C8. The \<^verbatim>\<open>opts\<close> of \<^verbatim>\<open>request\<close> have a body, the JSON serialization of the payload,
  exactly when the method is not GET; so \<^verbatim>\<open>get\<close> sends none and \<^verbatim>\<open>post\<close>, \<^verbatim>\<open>patch\<close> and
  \<^verbatim>\<open>del\<close> send one. When \<^verbatim>\<open>fetch\<close> resolves with a response, \<^verbatim>\<open>request\<close> returns that
  response object if \<^verbatim>\<open>getFullResponse\<close> is on, and the outcome of parsing its body as JSON
  if not.
\<close>

theorem body_iff_not_get:
  "body (request_opts env meth data auth) =
     (if toUpperCase meth = ''GET'' then None else Some (JSON_stringify env data))
   \<and> (\<forall>response.
        fetch env (API_URL env @ ''/'' @ endpoint)
          (request_opts env meth data (case authFlag of None \<Rightarrow> True | Some b \<Rightarrow> b)) = Inr response
        \<longrightarrow> fst (request env meth endpoint data authFlag getFullResponse sent) =
             (if (case getFullResponse of None \<Rightarrow> False | Some b \<Rightarrow> b)
              then Inr (Response response)
              else (case response_json env response of
                      Inl err \<Rightarrow> Inl err
                    | Inr parsed \<Rightarrow> Inr (Body parsed))))
   \<and> (\<forall>opts \<in> snd ` set (snd (get env endpoint authFlag getFullResponse [])). body opts = None)
   \<and> (\<forall>opts \<in> snd ` set (snd (post env endpoint data authFlag getFullResponse [])).
         body opts = Some (JSON_stringify env data))
   \<and> (\<forall>opts \<in> snd ` set (snd (patch env endpoint data authFlag getFullResponse [])).
         body opts = Some (JSON_stringify env data))
   \<and> (\<forall>opts \<in> snd ` set (snd (del env endpoint data authFlag getFullResponse [])).
         body opts = Some (JSON_stringify env data))"
proof (intro conjI allI impI)
  show "body (request_opts env meth data auth) =
     (if toUpperCase meth = ''GET'' then None else Some (JSON_stringify env data))"
    by (rule body_request_opts)
next
  fix response
  assume "fetch env (API_URL env @ ''/'' @ endpoint)
          (request_opts env meth data (case authFlag of None \<Rightarrow> True | Some b \<Rightarrow> b)) = Inr response"
  then show "fst (request env meth endpoint data authFlag getFullResponse sent) =
             (if (case getFullResponse of None \<Rightarrow> False | Some b \<Rightarrow> b)
              then Inr (Response response)
              else (case response_json env response of
                      Inl err \<Rightarrow> Inl err
                    | Inr parsed \<Rightarrow> Inr (Body parsed)))"
    by (simp add: request_def Let_def split: sum.split)
next
  show "\<forall>opts \<in> snd ` set (snd (get env endpoint authFlag getFullResponse [])). body opts = None"
    by (simp add: get_sent body_request_opts upper_verbs)
next
  show "\<forall>opts \<in> snd ` set (snd (post env endpoint data authFlag getFullResponse [])).
         body opts = Some (JSON_stringify env data)"
    by (simp add: post_sent body_request_opts upper_verbs)
next
  show "\<forall>opts \<in> snd ` set (snd (patch env endpoint data authFlag getFullResponse [])).
         body opts = Some (JSON_stringify env data)"
    by (simp add: patch_sent body_request_opts upper_verbs)
next
  show "\<forall>opts \<in> snd ` set (snd (del env endpoint data authFlag getFullResponse [])).
         body opts = Some (JSON_stringify env data)"
    by (simp add: del_sent body_request_opts upper_verbs)
qed

theorem body_iff_not_get_witness:
  "fetch demo_env (API_URL demo_env @ ''/'' @ ''posts'')
       (request_opts demo_env ''GET'' JNull (case None of None \<Rightarrow> True | Some b \<Rightarrow> b))
     = Inr (JObj [(''data'', JArr [])])
   \<and> body (request_opts demo_env ''GET'' JNull True) = None
   \<and> body (request_opts demo_env ''PATCH'' (JStr ''x'') True) = Some (JStr ''x'')
   \<and> fst (request demo_env ''GET'' ''posts'' JNull None None []) = Inr (Body (JObj [(''data'', JArr [])]))
   \<and> fst (request demo_env ''GET'' ''posts'' JNull None (Some True) [])
       = Inr (Response (JObj [(''data'', JArr [])]))"
proof -
  have f: "fetch demo_env (API_URL demo_env @ ''/'' @ ''posts'')
       (request_opts demo_env ''GET'' JNull (case None of None \<Rightarrow> True | Some b \<Rightarrow> b))
     = Inr (JObj [(''data'', JArr [])])"
    by (simp add: demo_env_def)
  have j: "response_json demo_env (JObj [(''data'', JArr [])]) = Inr (JObj [(''data'', JArr [])])"
    by (simp add: demo_env_def)
  have s: "JSON_stringify demo_env (JStr ''x'') = JStr ''x''"
    by (simp add: demo_env_def)
  note g = body_iff_not_get[of demo_env "''GET''" JNull True "''posts''" None None "[]"]
  note h = body_iff_not_get[of demo_env "''GET''" JNull True "''posts''" None "Some True" "[]"]
  note p = body_iff_not_get[of demo_env "''PATCH''" "JStr ''x''" True "''posts''" None None "[]"]
  from g have b1: "body (request_opts demo_env ''GET'' JNull True) = None"
    by (simp add: upper_verbs)
  from p have b2: "body (request_opts demo_env ''PATCH'' (JStr ''x'') True) = Some (JStr ''x'')"
    by (simp add: upper_verbs s)
  from g[THEN conjunct2, THEN conjunct1, rule_format, OF f]
  have r1: "fst (request demo_env ''GET'' ''posts'' JNull None None []) =
      Inr (Body (JObj [(''data'', JArr [])]))"
    by (simp add: j)
  from h[THEN conjunct2, THEN conjunct1, rule_format, OF f]
  have r2: "fst (request demo_env ''GET'' ''posts'' JNull None (Some True) []) =
      Inr (Response (JObj [(''data'', JArr [])]))"
    by simp
  from f b1 b2 r1 r2 show ?thesis by blast
qed

text \<open>
  C9. Two user-data objects that differ only in their \<^verbatim>\<open>password\<close> property make
  \<^verbatim>\<open>patchProfile\<close> send the same request and return the same result; the one request it
  sends is a PATCH whose body serializes an object without a \<^verbatim>\<open>password\<close> property.
\<close>

theorem patchProfile_omits_password:
  assumes "differ_only_in_password userData userData'"
  shows "patchProfile env userId userData sent = patchProfile env userId userData' sent
       \<and> snd (patchProfile env userId userData sent) =
           sent @ [(API_URL env @ ''/users/'' @ template userId,
                    request_opts env ''PATCH'' (JObj (rest_without ''password'' userData)) True)]
       \<and> body (request_opts env ''PATCH'' (JObj (rest_without ''password'' userData)) True) =
           Some (JSON_stringify env (JObj (rest_without ''password'' userData)))
       \<and> ''password'' \<notin> fst ` set (rest_without ''password'' userData)"
  using rest_without_password_eq[OF assms]
  by (auto simp add: patchProfile_def patch_sent body_request_opts upper_verbs rest_without_def)

theorem patchProfile_omits_password_witness:
  "differ_only_in_password
      [(''firstName'', JStr ''Ada''), (''password'', JStr ''hunter2''), (''bio'', JStr ''hi'')]
      [(''firstName'', JStr ''Ada''), (''password'', JStr ''other''), (''bio'', JStr ''hi'')]
   \<and> patchProfile demo_env (NumId 7)
        [(''firstName'', JStr ''Ada''), (''password'', JStr ''hunter2''), (''bio'', JStr ''hi'')] []
     = patchProfile demo_env (NumId 7)
        [(''firstName'', JStr ''Ada''), (''password'', JStr ''other''), (''bio'', JStr ''hi'')] []
   \<and> body (request_opts demo_env ''PATCH'' (JObj (rest_without ''password''
        [(''firstName'', JStr ''Ada''), (''password'', JStr ''hunter2''), (''bio'', JStr ''hi'')])) True)
     = Some (JObj [(''firstName'', JStr ''Ada''), (''bio'', JStr ''hi'')])"
  using patchProfile_omits_password[of
      "[(''firstName'', JStr ''Ada''), (''password'', JStr ''hunter2''), (''bio'', JStr ''hi'')]"
      "[(''firstName'', JStr ''Ada''), (''password'', JStr ''other''), (''bio'', JStr ''hi'')]"
      demo_env "NumId 7" "[]"]
  by (simp add: differ_only_in_password_def rest_without_def demo_env_def)

text \<open>
  C10. When no post of the array has the given id, each of the four per-post transforms
  (update post, create comment, delete comment, update comment) gives back the same
  references in the same order and leaves the store as it was.
\<close>

theorem missing_post_id_leaves_posts:
  assumes "\<forall>p\<in>set (posts s). pid_of (store s) p \<noteq> postId"
  shows "updatePosts (updatePost_fn postId updatedPost refreshedComments) s = s
       \<and> updatePosts (commentPost_fn postId savedComment) s = s
       \<and> updatePosts (deleteComment_fn postId commentId) s = s
       \<and> updatePosts (updateComment_fn postId commentId updatedComment) s = s"
proof -
  have "array_map fn (store s) (posts s) = (store s, posts s)"
    if "\<And>h p. pid_of h p \<noteq> postId \<Longrightarrow> fn h p = (h, p)" for fn
    using assms that by (intro array_map_untouched) simp
  then show ?thesis
    by (simp add: updatePosts_def updatePost_fn_def commentPost_fn_def
        deleteComment_fn_def updateComment_fn_def)
qed

theorem missing_post_id_leaves_posts_witness:
  "updatePosts (updatePost_fn (NumId 7) (post_at demo_store 0) [2]) demo_dashboard = demo_dashboard
   \<and> updatePosts (commentPost_fn (NumId 7) 2) demo_dashboard = demo_dashboard
   \<and> updatePosts (deleteComment_fn (NumId 7) (NumId 10)) demo_dashboard = demo_dashboard
   \<and> updatePosts (updateComment_fn (NumId 7) (NumId 10) 2) demo_dashboard = demo_dashboard
   \<and> map (pid_of (store demo_dashboard)) (posts demo_dashboard) = [NumId 1, NumId 0]"
proof -
  have ids: "map (pid_of (store demo_dashboard)) (posts demo_dashboard) = [NumId 1, NumId 0]"
    by (simp add: demo_dashboard_def demo_store_def pid_of_def)
  have absent: "\<forall>p\<in>set (posts demo_dashboard). pid_of (store demo_dashboard) p \<noteq> NumId 7"
    by (simp add: demo_dashboard_def demo_store_def pid_of_def)
  from missing_post_id_leaves_posts[OF absent, of "post_at demo_store 0" "[2]" 2 "NumId 10" 2] ids
  show ?thesis by simp
qed

end
